theory Spec2Isabelle
  imports Complex_Main
begin

section \<open>Data model (types.ts)\<close>

text \<open>
  The interfaces of \<^verbatim>\<open>types.ts\<close> as records. TypeScript types are erased at run time and
  the objects applied to the graph come unvalidated out of \<^verbatim>\<open>JSON.parse(response.text)\<close>
  (\<^verbatim>\<open>processBrainInput\<close>), so
  \<^item> the string-literal unions \<^verbatim>\<open>NodeType\<close> and \<^verbatim>\<open>'high' | 'medium' | 'low'\<close> are strings,
    with \<open>NodeType_ok\<close> and \<open>Priority_ok\<close> saying which strings the unions list;
  \<^item> the \<^verbatim>\<open>id\<close> of a node or of an edge may be missing (\<^verbatim>\<open>undefined\<close>), which is
    \<open>None\<close>; \<^verbatim>\<open>===\<close> on two such values is equality on \<open>string option\<close>;
  \<^item> an optional field \<^verbatim>\<open>f?: T\<close> is a \<open>T option\<close>;
  \<^item> \<^verbatim>\<open>number\<close> is \<open>real\<close>: the coordinates are only copied, never computed with.
  Field names carry a prefix (\<open>n_\<close>, \<open>p_\<close>, \<open>e_\<close>, \<open>t_\<close>) since several interfaces
  share the names \<^verbatim>\<open>id\<close> and \<^verbatim>\<open>label\<close>.
\<close>

type_synonym number = real

record MindNode =
  n_id :: "string option"
  n_label :: string
  n_type :: string
  n_description :: string
  n_icon :: "string option"
  n_details :: "string option"
  n_date :: "string option"
  n_reminderDate :: "string option"
  n_isCompleted :: "bool option"
  n_priority :: "string option"
  n_x :: "number option"
  n_y :: "number option"

text \<open>\<^verbatim>\<open>Partial<MindNode>\<close>: every field optional; \<open>None\<close> is "the object has no such property".\<close>

record PartialMindNode =
  p_id :: "string option"
  p_label :: "string option"
  p_type :: "string option"
  p_description :: "string option"
  p_icon :: "string option"
  p_details :: "string option"
  p_date :: "string option"
  p_reminderDate :: "string option"
  p_isCompleted :: "bool option"
  p_priority :: "string option"
  p_x :: "number option"
  p_y :: "number option"

record MindEdge =
  e_id :: "string option"
  e_source :: string
  e_target :: string
  e_label :: "string option"

record MindMapData =
  nodes :: "MindNode list"
  edges :: "MindEdge list"

text \<open>
  The three lists of a proposal are optional here because \<^verbatim>\<open>handleApplyChanges\<close> reads each
  one as \<^verbatim>\<open>proposal.nodesToAdd || []\<close>.
\<close>

record MindMapChangeProposal =
  nodesToAdd :: "MindNode list option"
  nodesToUpdate :: "PartialMindNode list option"
  edgesToAdd :: "MindEdge list option"
  explanation :: string

record Task =
  t_id :: string
  t_title :: string
  t_dueDate :: "string option"
  t_reminderDate :: "string option"
  t_urgency :: string
  t_completed :: bool
  t_nodeId :: string

definition NodeType_ok :: "string \<Rightarrow> bool" where
  "NodeType_ok s \<longleftrightarrow> s \<in> set [''concept'', ''task'', ''person'', ''event'', ''resource'']"

definition Priority_ok :: "string \<Rightarrow> bool" where
  "Priority_ok s \<longleftrightarrow> s \<in> set [''high'', ''medium'', ''low'']"

section \<open>Application state (App.tsx)\<close>

text \<open>The five \<^verbatim>\<open>useState\<close> cells of the \<^verbatim>\<open>App\<close> component.\<close>

record App =
  mindMap :: MindMapData
  tasks :: "Task list"
  isSyncingTasks :: bool
  isChatCollapsed :: bool
  isTaskWidgetVisible :: bool

text \<open>\<^verbatim>\<open>setMindMap(prev => ...)\<close>: the functional update of one state cell.\<close>

definition setMindMap :: "(MindMapData \<Rightarrow> MindMapData) \<Rightarrow> App \<Rightarrow> App" where
  "setMindMap f s = s\<lparr>mindMap := f (mindMap s)\<rparr>"

text \<open>
  The seed graph. The icons are emoji; a \<open>string\<close> holds bytes, so each one is written as
  its UTF-8 encoding.
\<close>

definition INITIAL_DATA :: MindMapData where
  "INITIAL_DATA = \<lparr>
     nodes = [
       \<lparr>n_id = Some ''me'', n_label = ''My Consciousness'', n_type = ''concept'',
        n_description = ''The root of my digital twin.'',
        n_icon = Some [CHR 0xF0, CHR 0x9F, CHR 0xA7, CHR 0xA0], n_details = None, n_date = None,
        n_reminderDate = None, n_isCompleted = None, n_priority = None,
        n_x = Some 0, n_y = Some 0\<rparr>,
       \<lparr>n_id = Some ''work'', n_label = ''Work'', n_type = ''concept'',
        n_description = ''Professional life and goals.'',
        n_icon = Some [CHR 0xF0, CHR 0x9F, CHR 0x92, CHR 0xBC], n_details = None, n_date = None,
        n_reminderDate = None, n_isCompleted = None, n_priority = None,
        n_x = Some 150, n_y = Some 50\<rparr>,
       \<lparr>n_id = Some ''health'', n_label = ''Health'', n_type = ''concept'',
        n_description = ''Physical and mental well-being.'',
        n_icon = Some [CHR 0xF0, CHR 0x9F, CHR 0x92, CHR 0xAA], n_details = None, n_date = None,
        n_reminderDate = None, n_isCompleted = None, n_priority = None,
        n_x = Some (- 150), n_y = Some 50\<rparr>],
     edges = [
       \<lparr>e_id = Some ''e1'', e_source = ''me'', e_target = ''work'', e_label = None\<rparr>,
       \<lparr>e_id = Some ''e2'', e_source = ''me'', e_target = ''health'', e_label = None\<rparr>]\<rparr>"

text \<open>The state right after the component is mounted.\<close>

definition initial_App :: App where
  "initial_App = \<lparr>mindMap = INITIAL_DATA, tasks = [], isSyncingTasks = False,
     isChatCollapsed = False, isTaskWidgetVisible = True\<rparr>"

section \<open>Array primitives\<close>

text \<open>
  \<^verbatim>\<open>Array.prototype.find\<close> is \<open>List.find\<close> (\<open>None\<close> for \<^verbatim>\<open>undefined\<close>; the elements are
  objects, so a found element is truthy). \<^verbatim>\<open>Array.prototype.findIndex\<close> returns the index of
  the first element satisfying the predicate, or \<open>-1\<close>.
\<close>

fun findIndex :: "('a \<Rightarrow> bool) \<Rightarrow> 'a list \<Rightarrow> int" where
  "findIndex P [] = - 1"
| "findIndex P (x # xs) =
     (if P x then 0 else (let i = findIndex P xs in if i = - 1 then - 1 else i + 1))"

text \<open>\<^verbatim>\<open>xs || []\<close> for a list that may be missing.\<close>

definition or_empty :: "'a list option \<Rightarrow> 'a list" where
  "or_empty xs = (case xs of None \<Rightarrow> [] | Some ys \<Rightarrow> ys)"

section \<open>handleApplyChanges\<close>

text \<open>
  One field of the object spread \<^verbatim>\<open>{ ...a, ...b }\<close>: a property that \<^verbatim>\<open>b\<close> has wins, a
  property that \<^verbatim>\<open>b\<close> lacks stays as in \<^verbatim>\<open>a\<close>. \<open>spread_req\<close> is for a field that
  \<^verbatim>\<open>MindNode\<close> requires, \<open>spread_opt\<close> for one that it declares optional.
\<close>

definition spread_req :: "'a \<Rightarrow> 'a option \<Rightarrow> 'a" where
  "spread_req a b = (case b of None \<Rightarrow> a | Some v \<Rightarrow> v)"

definition spread_opt :: "'a option \<Rightarrow> 'a option \<Rightarrow> 'a option" where
  "spread_opt a b = (case b of None \<Rightarrow> a | Some v \<Rightarrow> Some v)"

text \<open>\<^verbatim>\<open>{ ...newNodes[idx], ...update }\<close>\<close>

definition spread :: "MindNode \<Rightarrow> PartialMindNode \<Rightarrow> MindNode" where
  "spread n u = \<lparr>
     n_id = spread_opt (n_id n) (p_id u),
     n_label = spread_req (n_label n) (p_label u),
     n_type = spread_req (n_type n) (p_type u),
     n_description = spread_req (n_description n) (p_description u),
     n_icon = spread_opt (n_icon n) (p_icon u),
     n_details = spread_opt (n_details n) (p_details u),
     n_date = spread_opt (n_date n) (p_date u),
     n_reminderDate = spread_opt (n_reminderDate n) (p_reminderDate u),
     n_isCompleted = spread_opt (n_isCompleted n) (p_isCompleted u),
     n_priority = spread_opt (n_priority n) (p_priority u),
     n_x = spread_opt (n_x n) (p_x u),
     n_y = spread_opt (n_y n) (p_y u)\<rparr>"

text \<open>
  The bodies of the three \<^verbatim>\<open>forEach\<close> callbacks, each taking the array it mutates and
  returning it updated. They are the \<^verbatim>\<open>addNode\<close>, \<^verbatim>\<open>updateNode\<close> and \<^verbatim>\<open>addEdge\<close> of the
  specification.
\<close>

definition addNode :: "MindNode \<Rightarrow> MindNode list \<Rightarrow> MindNode list" where
  "addNode node newNodes =
     (if find (\<lambda>n. n_id n = n_id node) newNodes = None then newNodes @ [node] else newNodes)"

definition updateNode :: "PartialMindNode \<Rightarrow> MindNode list \<Rightarrow> MindNode list" where
  "updateNode update newNodes =
     (let idx = findIndex (\<lambda>n. n_id n = p_id update) newNodes
      in if idx \<noteq> - 1 then newNodes[nat idx := spread (newNodes ! nat idx) update]
         else newNodes)"

definition addEdge :: "MindEdge \<Rightarrow> MindEdge list \<Rightarrow> MindEdge list" where
  "addEdge edge newEdges =
     (if find (\<lambda>e. e_id e = e_id edge) newEdges = None then newEdges @ [edge] else newEdges)"

text \<open>The updater passed to \<^verbatim>\<open>setMindMap\<close>: nodes to add, then updates, then edges.\<close>

definition applyChanges :: "MindMapChangeProposal \<Rightarrow> MindMapData \<Rightarrow> MindMapData" where
  "applyChanges proposal prev =
     (let newNodes = nodes prev;
          newEdges = edges prev;
          newNodes = fold addNode (or_empty (nodesToAdd proposal)) newNodes;
          newNodes = fold updateNode (or_empty (nodesToUpdate proposal)) newNodes;
          newEdges = fold addEdge (or_empty (edgesToAdd proposal)) newEdges
      in \<lparr>nodes = newNodes, edges = newEdges\<rparr>)"

definition handleApplyChanges :: "MindMapChangeProposal \<Rightarrow> App \<Rightarrow> App" where
  "handleApplyChanges proposal = setMindMap (applyChanges proposal)"

section \<open>updateTaskInMindMap and handleUpdateNode\<close>

definition updateTaskInMindMap :: "Task \<Rightarrow> App \<Rightarrow> App" where
  "updateTaskInMindMap updatedTask =
     setMindMap (\<lambda>prev. prev\<lparr>nodes :=
       map (\<lambda>node.
              if n_id node = Some (t_nodeId updatedTask)
              then node\<lparr>n_label := t_title updatedTask,
                        n_date := t_dueDate updatedTask,
                        n_reminderDate := t_reminderDate updatedTask,
                        n_priority := Some (t_urgency updatedTask),
                        n_isCompleted := Some (t_completed updatedTask)\<rparr>
              else node)
           (nodes prev)\<rparr>)"

definition handleUpdateNode :: "MindNode \<Rightarrow> App \<Rightarrow> App" where
  "handleUpdateNode updatedNode =
     setMindMap (\<lambda>prev. prev\<lparr>nodes :=
       map (\<lambda>n. if n_id n = n_id updatedNode then updatedNode else n) (nodes prev)\<rparr>)"

section \<open>Notions of the specification\<close>

text \<open>
  An edge dangles when its source or its target is the id of no node. \<open>no_dangling\<close> is the
  referential integrity the specification asks of the graph.
\<close>

definition no_dangling :: "MindMapData \<Rightarrow> bool" where
  "no_dangling g =
     list_all (\<lambda>e. Some (e_source e) \<in> set (map n_id (nodes g)) \<and>
                    Some (e_target e) \<in> set (map n_id (nodes g))) (edges g)"

text \<open>
  A node of \<open>g\<close> that \<open>prev\<close> has no node id for is new. \<open>new_nodes_linked\<close> says that
  every new node has an edge into the existing graph: an edge of \<open>g\<close> with the new node at
  one end and a node of \<open>prev\<close> at the other.
\<close>

definition new_nodes_linked :: "MindMapData \<Rightarrow> MindMapData \<Rightarrow> bool" where
  "new_nodes_linked prev g =
     list_all (\<lambda>n. n_id n \<in> set (map n_id (nodes prev)) \<or>
                    list_ex (\<lambda>e. Some (e_source e) = n_id n \<and>
                                   Some (e_target e) \<in> set (map n_id (nodes prev)) \<or>
                                   Some (e_target e) = n_id n \<and>
                                   Some (e_source e) \<in> set (map n_id (nodes prev)))
                      (edges g)) (nodes g)"

text \<open>
  \<open>links g\<close> joins the two ends of every edge, in both directions; the graph is connected
  when a path of edges leads from every node id to every node id.
\<close>

definition links :: "MindMapData \<Rightarrow> (string option \<times> string option) set" where
  "links g = {(a, b). \<exists>e\<in>set (edges g).
     a = Some (e_source e) \<and> b = Some (e_target e) \<or>
     a = Some (e_target e) \<and> b = Some (e_source e)}"

definition connected :: "MindMapData \<Rightarrow> bool" where
  "connected g \<longleftrightarrow>
     (\<forall>a\<in>set (map n_id (nodes g)). \<forall>b\<in>set (map n_id (nodes g)). (a, b) \<in> (links g)\<^sup>*)"

text \<open>
  A malformed entry of a proposal, in the specification's words: an unknown enum value for
  the type or the priority, or the required id missing.
\<close>

definition malformed_node :: "MindNode \<Rightarrow> bool" where
  "malformed_node n \<longleftrightarrow>
     n_id n = None \<or> \<not> NodeType_ok (n_type n) \<or>
     (case n_priority n of None \<Rightarrow> False | Some pr \<Rightarrow> \<not> Priority_ok pr)"

definition malformed_edge :: "MindEdge \<Rightarrow> bool" where
  "malformed_edge e \<longleftrightarrow> e_id e = None"

section \<open>Composition of updates\<close>

text \<open>
  Two devices for the proofs, not part of the program: \<open>combine u v\<close> is the one update that
  does what \<open>u\<close> followed by \<open>v\<close> does, and \<open>no_props\<close> is the object without properties.
\<close>

definition combine :: "PartialMindNode \<Rightarrow> PartialMindNode \<Rightarrow> PartialMindNode" where
  "combine u v = \<lparr>
     p_id = spread_opt (p_id u) (p_id v),
     p_label = spread_opt (p_label u) (p_label v),
     p_type = spread_opt (p_type u) (p_type v),
     p_description = spread_opt (p_description u) (p_description v),
     p_icon = spread_opt (p_icon u) (p_icon v),
     p_details = spread_opt (p_details u) (p_details v),
     p_date = spread_opt (p_date u) (p_date v),
     p_reminderDate = spread_opt (p_reminderDate u) (p_reminderDate v),
     p_isCompleted = spread_opt (p_isCompleted u) (p_isCompleted v),
     p_priority = spread_opt (p_priority u) (p_priority v),
     p_x = spread_opt (p_x u) (p_x v),
     p_y = spread_opt (p_y u) (p_y v)\<rparr>"

definition no_props :: PartialMindNode where
  "no_props = \<lparr>p_id = None, p_label = None, p_type = None, p_description = None,
     p_icon = None, p_details = None, p_date = None, p_reminderDate = None,
     p_isCompleted = None, p_priority = None, p_x = None, p_y = None\<rparr>"

text \<open>The proposal that carries one update and nothing else.\<close>

definition only_update :: "PartialMindNode \<Rightarrow> MindMapChangeProposal" where
  "only_update u = \<lparr>nodesToAdd = None, nodesToUpdate = Some [u], edgesToAdd = None,
     explanation = ''''\<rparr>"

text \<open>The update \<^verbatim>\<open>{id: i, label: l}\<close>.\<close>

definition relabel :: "string \<Rightarrow> string \<Rightarrow> PartialMindNode" where
  "relabel i l = no_props\<lparr>p_id := Some i, p_label := Some l\<rparr>"

section \<open>Example inputs\<close>

text \<open>
  The node and the proposal of the specification's seed graph merge: \<^verbatim>\<open>gym\<close> is added under
  \<^verbatim>\<open>health\<close>.
\<close>

definition gym :: MindNode where
  "gym = \<lparr>n_id = Some ''gym'', n_label = ''Gym'', n_type = ''resource'', n_description = '''',
     n_icon = None, n_details = None, n_date = None, n_reminderDate = None,
     n_isCompleted = None, n_priority = None, n_x = None, n_y = None\<rparr>"

definition gym_edge :: MindEdge where
  "gym_edge = \<lparr>e_id = Some ''e3'', e_source = ''health'', e_target = ''gym'', e_label = None\<rparr>"

definition seed_merge :: MindMapChangeProposal where
  "seed_merge = \<lparr>nodesToAdd = Some [gym], nodesToUpdate = None, edgesToAdd = Some [gym_edge],
     explanation = ''Added the gym under Health.''\<rparr>"

text \<open>The same node with an edge to a node that does not exist, and no edge to \<^verbatim>\<open>gym\<close>.\<close>

definition stray_merge :: MindMapChangeProposal where
  "stray_merge = \<lparr>nodesToAdd = Some [gym], nodesToUpdate = None,
     edgesToAdd = Some [\<lparr>e_id = Some ''e3'', e_source = ''me'', e_target = ''ghost'',
       e_label = None\<rparr>],
     explanation = ''Added the gym.''\<rparr>"

text \<open>A task of the node \<^verbatim>\<open>work\<close>, and the state in which it is the task list.\<close>

definition work_task :: Task where
  "work_task = \<lparr>t_id = ''t1'', t_title = ''Work'', t_dueDate = None, t_reminderDate = None,
     t_urgency = ''low'', t_completed = False, t_nodeId = ''work''\<rparr>"

definition App_with_task :: App where
  "App_with_task = initial_App\<lparr>tasks := [work_task]\<rparr>"

text \<open>
  Malformed entries: a node with a type and a priority outside the enums, a node without id,
  an edge without id; and a proposal that carries them next to the well-formed \<^verbatim>\<open>gym\<close>.
\<close>

definition ufo :: MindNode where
  "ufo = \<lparr>n_id = Some ''ufo'', n_label = ''UFO'', n_type = ''alien'', n_description = '''',
     n_icon = None, n_details = None, n_date = None, n_reminderDate = None,
     n_isCompleted = None, n_priority = Some ''urgent'', n_x = None, n_y = None\<rparr>"

definition nameless :: MindNode where
  "nameless = \<lparr>n_id = None, n_label = ''Nameless'', n_type = ''concept'', n_description = '''',
     n_icon = None, n_details = None, n_date = None, n_reminderDate = None,
     n_isCompleted = None, n_priority = None, n_x = None, n_y = None\<rparr>"

definition nameless_edge :: MindEdge where
  "nameless_edge = \<lparr>e_id = None, e_source = ''me'', e_target = ''ufo'', e_label = None\<rparr>"

definition sloppy_merge :: MindMapChangeProposal where
  "sloppy_merge = \<lparr>nodesToAdd = Some [ufo, nameless, gym], nodesToUpdate = None,
     edgesToAdd = Some [nameless_edge, gym_edge], explanation = ''''\<rparr>"

text \<open>
  The node and the task of the specification's write-back round trip, and the node of its
  update example; the fields that the specification leaves out are filled in.
\<close>

definition n1_node :: MindNode where
  "n1_node = \<lparr>n_id = Some ''n1'', n_label = ''Old'', n_type = ''task'', n_description = '''',
     n_icon = None, n_details = None, n_date = None, n_reminderDate = None,
     n_isCompleted = None, n_priority = Some ''low'', n_x = None, n_y = None\<rparr>"

definition n1_task :: Task where
  "n1_task = \<lparr>t_id = ''t1'', t_title = ''New'', t_dueDate = None, t_reminderDate = None,
     t_urgency = ''high'', t_completed = True, t_nodeId = ''n1''\<rparr>"

definition App_n1 :: App where
  "App_n1 = initial_App\<lparr>mindMap := \<lparr>nodes = [n1_node], edges = []\<rparr>\<rparr>"

definition X_node :: MindNode where
  "X_node = \<lparr>n_id = Some ''X'', n_label = ''L1'', n_type = ''concept'', n_description = ''D'',
     n_icon = None, n_details = None, n_date = None, n_reminderDate = None,
     n_isCompleted = None, n_priority = None, n_x = None, n_y = None\<rparr>"

definition App_X :: App where
  "App_X = initial_App\<lparr>mindMap :=
     \<lparr>nodes = nodes INITIAL_DATA @ [X_node], edges = edges INITIAL_DATA\<rparr>\<rparr>"

text \<open>
  A second node with the id \<^verbatim>\<open>work\<close>; a proposal that adds it; one that adds it and also
  updates \<^verbatim>\<open>work\<close>; and one whose lists repeat ids among themselves and against the seed.
\<close>

definition work_again :: MindNode where
  "work_again = \<lparr>n_id = Some ''work'', n_label = ''Office'', n_type = ''event'',
     n_description = ''Replayed.'', n_icon = None, n_details = None, n_date = None,
     n_reminderDate = None, n_isCompleted = None, n_priority = Some ''high'',
     n_x = None, n_y = None\<rparr>"

definition readd_work :: MindMapChangeProposal where
  "readd_work = \<lparr>nodesToAdd = Some [work_again], nodesToUpdate = None, edgesToAdd = None,
     explanation = ''''\<rparr>"

definition readd_and_relabel_work :: MindMapChangeProposal where
  "readd_and_relabel_work = \<lparr>nodesToAdd = Some [work_again],
     nodesToUpdate = Some [relabel ''work'' ''Job''], edgesToAdd = None, explanation = ''''\<rparr>"

definition replay_merge :: MindMapChangeProposal where
  "replay_merge = \<lparr>nodesToAdd = Some [gym, gym\<lparr>n_label := ''Gym again''\<rparr>, work_again],
     nodesToUpdate = None,
     edgesToAdd = Some [gym_edge,
       \<lparr>e_id = Some ''e3'', e_source = ''me'', e_target = ''gym'', e_label = None\<rparr>,
       \<lparr>e_id = Some ''e1'', e_source = ''work'', e_target = ''gym'', e_label = None\<rparr>],
     explanation = ''''\<rparr>"

text \<open>A task whose node does not exist.\<close>

definition ghost_task :: Task where
  "ghost_task = \<lparr>t_id = ''t9'', t_title = ''Haunt'', t_dueDate = Some ''2026-10-31'',
     t_reminderDate = None, t_urgency = ''high'', t_completed = True, t_nodeId = ''ghost''\<rparr>"

section \<open>Lemmas about the array primitives and the three steps\<close>

lemma findIndex_ge: "- 1 \<le> findIndex P xs"
  by (induction xs) (auto simp: Let_def)

lemma findIndex_none: "findIndex P xs = - 1 \<longleftrightarrow> (\<forall>x\<in>set xs. \<not> P x)"
proof (induction xs)
  case Nil
  show ?case by simp
next
  case (Cons x xs)
  have "findIndex P xs + 1 \<noteq> - 1" using findIndex_ge [of P xs] by linarith
  with Cons show ?case by (auto simp: Let_def)
qed

lemma updateNode_Nil: "updateNode u [] = []"
  by (simp add: updateNode_def)

lemma updateNode_Cons:
  "updateNode u (x # xs) =
     (if n_id x = p_id u then spread x u # xs else x # updateNode u xs)"
proof (cases "n_id x = p_id u")
  case True
  then show ?thesis by (simp add: updateNode_def)
next
  case False
  let ?i = "findIndex (\<lambda>n. n_id n = p_id u) xs"
  show ?thesis
  proof (cases "?i = - 1")
    case True
    with False show ?thesis by (simp add: updateNode_def)
  next
    case neq: False
    with findIndex_ge [of "\<lambda>n. n_id n = p_id u" xs] have ge: "0 \<le> ?i" by linarith
    then have "nat (?i + 1) = Suc (nat ?i)" by linarith
    moreover have "?i + 1 \<noteq> - 1" using ge by linarith
    ultimately show ?thesis using False neq by (simp add: updateNode_def Let_def)
  qed
qed

lemma spread_opt_same: "spread_opt a a = a"
  by (simp add: spread_opt_def split: option.splits)

lemma spread_id: "n_id n = p_id u \<Longrightarrow> n_id (spread n u) = n_id n"
  by (simp add: spread_def spread_opt_same)

lemma map_id_updateNode: "map n_id (updateNode u xs) = map n_id xs"
  by (induction xs) (simp_all add: updateNode_Nil updateNode_Cons spread_id)

lemma map_id_fold_updateNode: "map n_id (fold updateNode us xs) = map n_id xs"
  by (induction us arbitrary: xs) (simp_all add: map_id_updateNode)

lemma find_key_None: "find (\<lambda>x. f x = k) xs = None \<longleftrightarrow> k \<notin> f ` set xs"
  by (induction xs) auto

lemma ids_addNode: "n_id ` set (addNode a xs) = insert (n_id a) (n_id ` set xs)"
  by (auto simp: addNode_def find_key_None)

lemma ids_fold_addNode: "n_id ` set (fold addNode as xs) = n_id ` set as \<union> n_id ` set xs"
  by (induction as arbitrary: xs) (simp_all add: ids_addNode)

lemma addNode_present: "n_id a \<in> n_id ` set xs \<Longrightarrow> addNode a xs = xs"
  by (auto simp: addNode_def find_key_None)

lemma fold_addNode_present:
  "n_id ` set as \<subseteq> n_id ` set xs \<Longrightarrow> fold addNode as xs = xs"
  by (induction as) (simp_all add: addNode_present)

lemma distinct_addNode: "distinct (map n_id xs) \<Longrightarrow> distinct (map n_id (addNode a xs))"
  by (auto simp: addNode_def find_key_None)

lemma distinct_fold_addNode:
  "distinct (map n_id xs) \<Longrightarrow> distinct (map n_id (fold addNode as xs))"
  by (induction as arbitrary: xs) (simp_all add: distinct_addNode)

lemma ids_addEdge: "e_id ` set (addEdge a xs) = insert (e_id a) (e_id ` set xs)"
  by (auto simp: addEdge_def find_key_None)

lemma ids_fold_addEdge: "e_id ` set (fold addEdge as xs) = e_id ` set as \<union> e_id ` set xs"
  by (induction as arbitrary: xs) (simp_all add: ids_addEdge)

lemma addEdge_present: "e_id a \<in> e_id ` set xs \<Longrightarrow> addEdge a xs = xs"
  by (auto simp: addEdge_def find_key_None)

lemma fold_addEdge_present:
  "e_id ` set as \<subseteq> e_id ` set xs \<Longrightarrow> fold addEdge as xs = xs"
  by (induction as) (simp_all add: addEdge_present)

lemma distinct_addEdge: "distinct (map e_id xs) \<Longrightarrow> distinct (map e_id (addEdge a xs))"
  by (auto simp: addEdge_def find_key_None)

lemma distinct_fold_addEdge:
  "distinct (map e_id xs) \<Longrightarrow> distinct (map e_id (fold addEdge as xs))"
  by (induction as arbitrary: xs) (simp_all add: distinct_addEdge)

subsection \<open>Composing updates\<close>

lemma spread_req_assoc: "spread_req (spread_req a b) c = spread_req a (spread_opt b c)"
  by (simp add: spread_req_def spread_opt_def split: option.splits)

lemma spread_opt_assoc: "spread_opt (spread_opt a b) c = spread_opt a (spread_opt b c)"
  by (simp add: spread_opt_def split: option.splits)

lemma spread_req_twice: "spread_req (spread_req a b) b = spread_req a b"
  by (simp add: spread_req_def split: option.splits)

lemma spread_opt_twice: "spread_opt (spread_opt a b) b = spread_opt a b"
  by (simp add: spread_opt_def split: option.splits)

lemma spread_spread: "spread (spread n u) v = spread n (combine u v)"
  by (simp add: spread_def combine_def spread_req_assoc spread_opt_assoc)

lemma spread_twice: "spread (spread n u) u = spread n u"
  by (simp add: spread_def spread_req_twice spread_opt_twice)

lemma spread_no_props: "spread n no_props = n"
  by (simp add: spread_def no_props_def spread_req_def spread_opt_def)

lemma fold_spread: "fold (\<lambda>u n. spread n u) us n = spread n (foldr combine us no_props)"
  by (induction us arbitrary: n) (simp_all add: spread_no_props spread_spread)

lemma fold_spread_twice:
  "fold (\<lambda>u n. spread n u) us (fold (\<lambda>u n. spread n u) us n) = fold (\<lambda>u n. spread n u) us n"
  by (simp add: fold_spread spread_twice)

lemma fold_spread_id:
  "\<forall>u\<in>set us. p_id u = n_id n \<Longrightarrow> n_id (fold (\<lambda>u n. spread n u) us n) = n_id n"
  by (induction us arbitrary: n) (simp_all add: spread_id)

lemma fold_updateNode_Nil: "fold updateNode us [] = []"
  by (induction us) (simp_all add: updateNode_Nil)

lemma fold_updateNode_Cons:
  "fold updateNode us (x # r) =
     fold (\<lambda>u n. spread n u) (filter (\<lambda>u. p_id u = n_id x) us) x #
     fold updateNode (filter (\<lambda>u. p_id u \<noteq> n_id x) us) r"
proof (induction us arbitrary: x r)
  case Nil
  show ?case by simp
next
  case (Cons u us)
  show ?case
  proof (cases "n_id x = p_id u")
    case True
    then have "n_id (spread x u) = n_id x" by (rule spread_id)
    with True Cons [of "spread x u" r] show ?thesis
      by (simp add: updateNode_Cons)
  next
    case False
    then have "p_id u \<noteq> n_id x" by simp
    with False Cons [of x "updateNode u r"] show ?thesis
      by (simp add: updateNode_Cons)
  qed
qed

lemma fold_updateNode_twice:
  "fold updateNode us (fold updateNode us xs) = fold updateNode us xs"
proof (induction xs arbitrary: us)
  case Nil
  show ?case by (simp add: fold_updateNode_Nil)
next
  case (Cons x r)
  let ?F = "filter (\<lambda>u. p_id u = n_id x) us"
  let ?G = "filter (\<lambda>u. p_id u \<noteq> n_id x) us"
  let ?x' = "fold (\<lambda>u n. spread n u) ?F x"
  have id: "n_id ?x' = n_id x" by (rule fold_spread_id) simp
  have "fold updateNode us (fold updateNode us (x # r)) =
        fold updateNode us (?x' # fold updateNode ?G r)"
    by (simp only: fold_updateNode_Cons [of us x r])
  also have "\<dots> = fold (\<lambda>u n. spread n u) ?F ?x' # fold updateNode ?G (fold updateNode ?G r)"
    by (simp only: fold_updateNode_Cons [of us ?x'] id)
  also have "\<dots> = ?x' # fold updateNode ?G r"
    by (simp only: fold_spread_twice Cons.IH)
  also have "\<dots> = fold updateNode us (x # r)"
    by (simp only: fold_updateNode_Cons [of us x r])
  finally show ?case .
qed

lemma applyChanges_twice: "applyChanges p (applyChanges p g) = applyChanges p g"
proof -
  let ?as = "or_empty (nodesToAdd p)" and ?us = "or_empty (nodesToUpdate p)"
    and ?es = "or_empty (edgesToAdd p)"
  let ?ns = "fold updateNode ?us (fold addNode ?as (nodes g))"
  let ?ed = "fold addEdge ?es (edges g)"
  have "n_id ` set ?ns = set (map n_id ?ns)" by simp
  also have "\<dots> = set (map n_id (fold addNode ?as (nodes g)))"
    by (simp only: map_id_fold_updateNode)
  also have "\<dots> = n_id ` set ?as \<union> n_id ` set (nodes g)"
    by (simp add: ids_fold_addNode)
  finally have "n_id ` set ?as \<subseteq> n_id ` set ?ns" by blast
  then have n1: "fold addNode ?as ?ns = ?ns" by (rule fold_addNode_present)
  have n2: "fold updateNode ?us ?ns = ?ns" by (rule fold_updateNode_twice)
  have "e_id ` set ?es \<subseteq> e_id ` set ?ed" by (simp add: ids_fold_addEdge)
  then have e: "fold addEdge ?es ?ed = ?ed" by (rule fold_addEdge_present)
  show ?thesis by (simp add: applyChanges_def Let_def n1 n2 e)
qed

subsection \<open>What the steps add, keep and leave alone\<close>

lemma set_addNode_mono: "set xs \<subseteq> set (addNode a xs)"
  by (auto simp: addNode_def)

lemma set_fold_addNode_mono: "set xs \<subseteq> set (fold addNode as xs)"
proof (induction as arbitrary: xs)
  case Nil
  show ?case by simp
next
  case (Cons a as)
  have "set xs \<subseteq> set (addNode a xs)" by (rule set_addNode_mono)
  also have "\<dots> \<subseteq> set (fold addNode as (addNode a xs))" by (rule Cons.IH)
  finally show ?case by simp
qed

lemma set_addEdge_mono: "set xs \<subseteq> set (addEdge a xs)"
  by (auto simp: addEdge_def)

lemma set_fold_addEdge_mono: "set xs \<subseteq> set (fold addEdge as xs)"
proof (induction as arbitrary: xs)
  case Nil
  show ?case by simp
next
  case (Cons a as)
  have "set xs \<subseteq> set (addEdge a xs)" by (rule set_addEdge_mono)
  also have "\<dots> \<subseteq> set (fold addEdge as (addEdge a xs))" by (rule Cons.IH)
  finally show ?case by simp
qed

lemma set_addEdge_sub: "set (addEdge a xs) \<subseteq> insert a (set xs)"
  by (auto simp: addEdge_def)

lemma set_fold_addEdge_sub: "set (fold addEdge as xs) \<subseteq> set as \<union> set xs"
proof (induction as arbitrary: xs)
  case Nil
  show ?case by simp
next
  case (Cons a as)
  have "set (fold addEdge as (addEdge a xs)) \<subseteq> set as \<union> set (addEdge a xs)" by (rule Cons.IH)
  also have "\<dots> \<subseteq> set as \<union> insert a (set xs)" using set_addEdge_sub [of a xs] by blast
  finally show ?case by auto
qed

lemma addNode_fresh: "n_id a \<notin> n_id ` set xs \<Longrightarrow> addNode a xs = xs @ [a]"
  by (auto simp: addNode_def find_key_None)

lemma addEdge_fresh: "e_id a \<notin> e_id ` set xs \<Longrightarrow> addEdge a xs = xs @ [a]"
  by (auto simp: addEdge_def find_key_None)

lemma fold_addNode_inserts:
  assumes "n_id a \<notin> n_id ` set xs" and "n_id a \<notin> n_id ` set pre"
  shows "a \<in> set (fold addNode (pre @ a # post) xs)"
proof -
  let ?ys = "fold addNode pre xs"
  from assms have "n_id a \<notin> n_id ` set ?ys" by (simp add: ids_fold_addNode)
  then have "addNode a ?ys = ?ys @ [a]" by (rule addNode_fresh)
  then have "a \<in> set (addNode a ?ys)" by simp
  with set_fold_addNode_mono [of "addNode a ?ys" post] show ?thesis by auto
qed

lemma fold_addEdge_inserts:
  assumes "e_id a \<notin> e_id ` set xs" and "e_id a \<notin> e_id ` set pre"
  shows "a \<in> set (fold addEdge (pre @ a # post) xs)"
proof -
  let ?ys = "fold addEdge pre xs"
  from assms have "e_id a \<notin> e_id ` set ?ys" by (simp add: ids_fold_addEdge)
  then have "addEdge a ?ys = ?ys @ [a]" by (rule addEdge_fresh)
  then have "a \<in> set (addEdge a ?ys)" by simp
  with set_fold_addEdge_mono [of "addEdge a ?ys" post] show ?thesis by auto
qed

lemma updateNode_keeps: "a \<in> set xs \<Longrightarrow> n_id a \<noteq> p_id u \<Longrightarrow> a \<in> set (updateNode u xs)"
  by (induction xs) (auto simp: updateNode_Nil updateNode_Cons)

lemma fold_updateNode_keeps:
  "a \<in> set xs \<Longrightarrow> n_id a \<notin> p_id ` set us \<Longrightarrow> a \<in> set (fold updateNode us xs)"
  by (induction us arbitrary: xs) (simp_all add: updateNode_keeps)

lemma filter_addNode:
  "k \<in> n_id ` set xs \<Longrightarrow> filter (\<lambda>n. n_id n = k) (addNode a xs) = filter (\<lambda>n. n_id n = k) xs"
  by (auto simp: addNode_def find_key_None)

lemma filter_fold_addNode:
  "k \<in> n_id ` set xs \<Longrightarrow>
   filter (\<lambda>n. n_id n = k) (fold addNode as xs) = filter (\<lambda>n. n_id n = k) xs"
proof (induction as arbitrary: xs)
  case Nil
  show ?case by simp
next
  case (Cons a as)
  from Cons.prems have "k \<in> n_id ` set (addNode a xs)" by (simp add: ids_addNode)
  then have "filter (\<lambda>n. n_id n = k) (fold addNode as (addNode a xs)) =
             filter (\<lambda>n. n_id n = k) (addNode a xs)" by (rule Cons.IH)
  with Cons.prems show ?case by (simp add: filter_addNode)
qed

lemma filter_updateNode:
  "p_id u \<noteq> k \<Longrightarrow>
   filter (\<lambda>n. n_id n = k) (updateNode u xs) = filter (\<lambda>n. n_id n = k) xs"
  by (induction xs) (auto simp: updateNode_Nil updateNode_Cons spread_id)

lemma filter_fold_updateNode:
  "k \<notin> p_id ` set us \<Longrightarrow>
   filter (\<lambda>n. n_id n = k) (fold updateNode us xs) = filter (\<lambda>n. n_id n = k) xs"
  by (induction us arbitrary: xs) (auto simp: filter_updateNode)

lemma updateNode_unknown: "\<forall>n\<in>set xs. n_id n \<noteq> p_id u \<Longrightarrow> updateNode u xs = xs"
  by (simp add: updateNode_def findIndex_none)

lemma updateNode_first:
  "i < length xs \<Longrightarrow> n_id (xs ! i) = p_id u \<Longrightarrow> \<forall>j<i. n_id (xs ! j) \<noteq> p_id u \<Longrightarrow>
   updateNode u xs = xs[i := spread (xs ! i) u]"
proof (induction xs arbitrary: i)
  case Nil
  then show ?case by simp
next
  case (Cons x xs)
  show ?case
  proof (cases i)
    case 0
    with Cons.prems show ?thesis by (simp add: updateNode_Cons)
  next
    case (Suc k)
    with Cons.prems have "n_id x \<noteq> p_id u" by auto
    moreover from Suc Cons.prems have "updateNode u xs = xs[k := spread (xs ! k) u]"
      by (intro Cons.IH) auto
    ultimately show ?thesis using Suc by (simp add: updateNode_Cons)
  qed
qed

lemma nodes_applyChanges:
  "nodes (applyChanges p g) =
     fold updateNode (or_empty (nodesToUpdate p)) (fold addNode (or_empty (nodesToAdd p)) (nodes g))"
  by (simp add: applyChanges_def Let_def)

lemma edges_applyChanges:
  "edges (applyChanges p g) = fold addEdge (or_empty (edgesToAdd p)) (edges g)"
  by (simp add: applyChanges_def Let_def)

lemma mindMap_handleApplyChanges:
  "mindMap (handleApplyChanges p s) = applyChanges p (mindMap s)"
  by (simp add: handleApplyChanges_def setMindMap_def)

lemma ids_applyChanges:
  "n_id ` set (nodes (applyChanges p g)) = n_id ` set (or_empty (nodesToAdd p)) \<union> n_id ` set (nodes g)"
proof -
  have "n_id ` set (nodes (applyChanges p g)) = set (map n_id (nodes (applyChanges p g)))" by simp
  also have "\<dots> = set (map n_id (fold addNode (or_empty (nodesToAdd p)) (nodes g)))"
    by (simp only: nodes_applyChanges map_id_fold_updateNode)
  also have "\<dots> = n_id ` set (or_empty (nodesToAdd p)) \<union> n_id ` set (nodes g)"
    by (simp add: ids_fold_addNode)
  finally show ?thesis .
qed

lemma distinct_applyChanges:
  assumes "distinct (map n_id (nodes g))" and "distinct (map e_id (edges g))"
  shows "distinct (map n_id (nodes (applyChanges p g)))"
    and "distinct (map e_id (edges (applyChanges p g)))"
  using assms
  by (simp_all add: nodes_applyChanges edges_applyChanges map_id_fold_updateNode
      distinct_fold_addNode distinct_fold_addEdge)

lemma fold_addEdge_distinct_fresh:
  assumes "distinct (map e_id es)" and "e_id ` set es \<inter> e_id ` set xs = {}"
    and "e \<in> set es"
  shows "e \<in> set (fold addEdge es xs)"
proof -
  from assms(3) obtain pre post where es: "es = pre @ e # post" by (auto dest: split_list)
  with assms(1) have "e_id e \<notin> e_id ` set pre" by auto
  moreover from assms(2,3) have "e_id e \<notin> e_id ` set xs" by auto
  ultimately show ?thesis unfolding es by (intro fold_addEdge_inserts)
qed

lemma count_ids_applyChanges:
  assumes "k \<in> n_id ` set (nodes g)"
  shows "length (filter (\<lambda>n. n_id n = k) (nodes (applyChanges p g))) =
         length (filter (\<lambda>n. n_id n = k) (nodes g))"
proof -
  have len: "length (filter (\<lambda>n. n_id n = k) xs) = length (filter (\<lambda>i. i = k) (map n_id xs))"
    for xs :: "MindNode list"
    by (simp add: filter_map comp_def)
  have "length (filter (\<lambda>n. n_id n = k) (nodes (applyChanges p g))) =
        length (filter (\<lambda>n. n_id n = k) (fold addNode (or_empty (nodesToAdd p)) (nodes g)))"
    by (simp only: len nodes_applyChanges map_id_fold_updateNode)
  also have "\<dots> = length (filter (\<lambda>n. n_id n = k) (nodes g))"
    using assms by (simp add: filter_fold_addNode)
  finally show ?thesis .
qed

lemma sym_links: "sym (links g)"
  by (auto simp: sym_def links_def)

lemma links_rev: "(a, b) \<in> (links g)\<^sup>* \<Longrightarrow> (b, a) \<in> (links g)\<^sup>*"
  using sym_rtrancl [OF sym_links, of g] by (auto dest: symD)

lemma links_mono: "set (edges g) \<subseteq> set (edges g') \<Longrightarrow> links g \<subseteq> links g'"
  by (auto simp: links_def)

lemma connected_via_hub:
  assumes "\<forall>a\<in>set (map n_id (nodes g)). (c, a) \<in> (links g)\<^sup>*"
  shows "connected g"
  unfolding connected_def
proof (intro ballI)
  fix a b
  assume "a \<in> set (map n_id (nodes g))" and "b \<in> set (map n_id (nodes g))"
  with assms have "(c, a) \<in> (links g)\<^sup>*" and "(c, b) \<in> (links g)\<^sup>*" by blast+
  from links_rev [OF this(1)] this(2) show "(a, b) \<in> (links g)\<^sup>*" by (rule rtrancl_trans)
qed

lemma fold_addNode_skip:
  assumes "n_id a \<in> n_id ` set xs"
  shows "fold addNode (pre @ a # post) xs = fold addNode (pre @ post) xs"
proof -
  from assms have "n_id a \<in> n_id ` set (fold addNode pre xs)" by (simp add: ids_fold_addNode)
  then have "addNode a (fold addNode pre xs) = fold addNode pre xs" by (rule addNode_present)
  then show ?thesis by simp
qed

lemma connected_INITIAL_DATA: "connected INITIAL_DATA"
proof (rule connected_via_hub [where c = "Some ''me''"], intro ballI)
  fix a assume "a \<in> set (map n_id (nodes INITIAL_DATA))"
  then have "a = Some ''me'' \<or> a = Some ''work'' \<or> a = Some ''health''"
    by (simp add: INITIAL_DATA_def)
  moreover have "(Some ''me'', Some ''work'') \<in> links INITIAL_DATA"
    and "(Some ''me'', Some ''health'') \<in> links INITIAL_DATA"
    by (simp_all add: links_def INITIAL_DATA_def)
  ultimately show "(Some ''me'', a) \<in> (links INITIAL_DATA)\<^sup>*" by auto
qed

lemma not_connected_isolated:
  assumes "a \<in> set (map n_id (nodes g))" and "b \<in> set (map n_id (nodes g))" and "a \<noteq> b"
    and "\<forall>e\<in>set (edges g). Some (e_source e) \<noteq> a \<and> Some (e_target e) \<noteq> a"
  shows "\<not> connected g"
proof
  assume "connected g"
  with assms(1,2) have "(a, b) \<in> (links g)\<^sup>*" by (auto simp: connected_def)
  with assms(3) obtain y where "(a, y) \<in> links g" by (auto elim: converse_rtranclE)
  with assms(4) show False by (auto simp: links_def)
qed

lemma applyChanges_skip:
  assumes "nodesToAdd p = Some (pre @ a # post)" and "n_id a \<in> n_id ` set (nodes g)"
  shows "applyChanges p g = applyChanges (p\<lparr>nodesToAdd := Some (pre @ post)\<rparr>) g"
  using assms fold_addNode_skip [of a "nodes g" pre post]
  by (simp add: applyChanges_def or_empty_def Let_def del: fold_append fold_simps)

lemma applyChanges_only_update:
  "applyChanges (only_update u) g = \<lparr>nodes = updateNode u (nodes g), edges = edges g\<rparr>"
  by (simp add: applyChanges_def only_update_def or_empty_def)

section \<open>The claims\<close>

text \<open>The equations that evaluate \<open>handleApplyChanges\<close> on a concrete state.\<close>

lemmas eval_defs = initial_App_def INITIAL_DATA_def mindMap_handleApplyChanges
  applyChanges_def or_empty_def addNode_def addEdge_def updateNode_Nil updateNode_Cons
  spread_def spread_req_def spread_opt_def Let_def

subsection \<open>C1: referential integrity and connectivity after a proposal\<close>

text \<open>
  C1 as stated: after every applied proposal no edge dangles and every newly added node has
  an edge into the existing graph, so that the graph stays connected.
  \<open>handleApplyChanges\<close> checks neither: on the seed graph, which is connected and has no
  dangling edge, \<open>stray_merge\<close> leaves the edge \<^verbatim>\<open>e3\<close> pointing at the missing node
  \<^verbatim>\<open>ghost\<close>, the new node \<^verbatim>\<open>gym\<close> without any edge, and the graph disconnected.
\<close>

theorem C1_dangling_edge_counterexample:
  "no_dangling (mindMap initial_App) \<and> connected (mindMap initial_App) \<and>
   \<not> no_dangling (mindMap (handleApplyChanges stray_merge initial_App)) \<and>
   \<not> new_nodes_linked (mindMap initial_App)
        (mindMap (handleApplyChanges stray_merge initial_App)) \<and>
   \<not> connected (mindMap (handleApplyChanges stray_merge initial_App))"
proof -
  have "connected (mindMap initial_App)" by (simp add: initial_App_def connected_INITIAL_DATA)
  moreover have "\<not> connected (mindMap (handleApplyChanges stray_merge initial_App))"
    by (rule not_connected_isolated [where a = "Some ''gym''" and b = "Some ''me''"])
      (simp_all add: eval_defs stray_merge_def gym_def)
  moreover have "no_dangling (mindMap initial_App) \<and>
   \<not> no_dangling (mindMap (handleApplyChanges stray_merge initial_App)) \<and>
   \<not> new_nodes_linked (mindMap initial_App)
        (mindMap (handleApplyChanges stray_merge initial_App))"
    by (simp add: eval_defs stray_merge_def gym_def no_dangling_def new_nodes_linked_def)
  ultimately show ?thesis by blast
qed

text \<open>
  C1, amended: when no edge of the graph dangles and every edge of \<^verbatim>\<open>edgesToAdd\<close> has its
  source and its target among the ids of the graph's nodes and of the nodes of
  \<^verbatim>\<open>nodesToAdd\<close>, no edge dangles after the proposal is applied. When moreover the ids
  of \<^verbatim>\<open>edgesToAdd\<close> are distinct and are ids of no edge of the graph, and every node of
  \<^verbatim>\<open>nodesToAdd\<close> with a new id is joined by an edge of \<^verbatim>\<open>edgesToAdd\<close> to a node of the
  graph, then every newly added node has an edge connecting it to a node of the existing
  graph, and a graph that was connected remains connected.
\<close>

theorem C1_no_dangling_when_endpoints_known:
  assumes "no_dangling (mindMap s)"
    and "\<forall>e\<in>set (or_empty (edgesToAdd p)).
           Some (e_source e) \<in>
             n_id ` (set (nodes (mindMap s)) \<union> set (or_empty (nodesToAdd p))) \<and>
           Some (e_target e) \<in>
             n_id ` (set (nodes (mindMap s)) \<union> set (or_empty (nodesToAdd p)))"
  shows "no_dangling (mindMap (handleApplyChanges p s)) \<and>
         (distinct (map e_id (or_empty (edgesToAdd p))) \<and>
          e_id ` set (or_empty (edgesToAdd p)) \<inter> e_id ` set (edges (mindMap s)) = {} \<and>
          (\<forall>a\<in>set (or_empty (nodesToAdd p)). n_id a \<notin> n_id ` set (nodes (mindMap s)) \<longrightarrow>
             (\<exists>e\<in>set (or_empty (edgesToAdd p)).
                Some (e_source e) = n_id a \<and> Some (e_target e) \<in> n_id ` set (nodes (mindMap s)) \<or>
                Some (e_target e) = n_id a \<and> Some (e_source e) \<in> n_id ` set (nodes (mindMap s))))
          \<longrightarrow> new_nodes_linked (mindMap s) (mindMap (handleApplyChanges p s)) \<and>
              (connected (mindMap s) \<longrightarrow> connected (mindMap (handleApplyChanges p s))))"
proof (intro conjI impI)
  let ?g = "mindMap s" and ?g' = "applyChanges p (mindMap s)"
  let ?I = "n_id ` set (nodes ?g')"
  have I: "?I = n_id ` set (or_empty (nodesToAdd p)) \<union> n_id ` set (nodes ?g)"
    by (rule ids_applyChanges)
  have "Some (e_source e) \<in> ?I \<and> Some (e_target e) \<in> ?I" if "e \<in> set (edges ?g')" for e
  proof -
    from that set_fold_addEdge_sub [of "or_empty (edgesToAdd p)" "edges ?g"]
    have "e \<in> set (or_empty (edgesToAdd p)) \<or> e \<in> set (edges ?g)"
      by (auto simp: edges_applyChanges)
    then show ?thesis
    proof
      assume "e \<in> set (or_empty (edgesToAdd p))"
      with assms(2) show ?thesis unfolding I by (auto simp: image_Un)
    next
      assume "e \<in> set (edges ?g)"
      with assms(1) show ?thesis unfolding I by (auto simp: no_dangling_def list_all_iff)
    qed
  qed
  then show "no_dangling (mindMap (handleApplyChanges p s))"
    by (simp add: no_dangling_def list_all_iff mindMap_handleApplyChanges)
next
  let ?as = "or_empty (nodesToAdd p)" and ?es = "or_empty (edgesToAdd p)"
  let ?g = "mindMap s" and ?g' = "applyChanges p (mindMap s)"
  let ?I = "n_id ` set (nodes ?g)"
  assume h: "distinct (map e_id ?es) \<and> e_id ` set ?es \<inter> e_id ` set (edges ?g) = {} \<and>
    (\<forall>a\<in>set ?as. n_id a \<notin> ?I \<longrightarrow>
       (\<exists>e\<in>set ?es. Some (e_source e) = n_id a \<and> Some (e_target e) \<in> ?I \<or>
                      Some (e_target e) = n_id a \<and> Some (e_source e) \<in> ?I))"
  have link: "\<exists>e\<in>set (edges ?g'). Some (e_source e) = k \<and> Some (e_target e) \<in> ?I \<or>
                                    Some (e_target e) = k \<and> Some (e_source e) \<in> ?I"
    if k: "k \<in> n_id ` set (nodes ?g')" and new: "k \<notin> ?I" for k
  proof -
    from k new have "k \<in> n_id ` set ?as" by (simp add: ids_applyChanges)
    then obtain a where a: "a \<in> set ?as" "n_id a = k" by auto
    with h new obtain e where e: "e \<in> set ?es"
      "Some (e_source e) = k \<and> Some (e_target e) \<in> ?I \<or>
       Some (e_target e) = k \<and> Some (e_source e) \<in> ?I"
      by blast
    from h e(1) have "e \<in> set (fold addEdge ?es (edges ?g))"
      by (intro fold_addEdge_distinct_fresh) simp_all
    with e(2) show ?thesis by (auto simp: edges_applyChanges)
  qed
  show "new_nodes_linked (mindMap s) (mindMap (handleApplyChanges p s))"
    unfolding new_nodes_linked_def list_all_iff list_ex_iff mindMap_handleApplyChanges
  proof (intro ballI)
    fix n assume n: "n \<in> set (nodes ?g')"
    show "n_id n \<in> set (map n_id (nodes ?g)) \<or>
      (\<exists>e\<in>set (edges ?g').
          Some (e_source e) = n_id n \<and> Some (e_target e) \<in> set (map n_id (nodes ?g)) \<or>
          Some (e_target e) = n_id n \<and> Some (e_source e) \<in> set (map n_id (nodes ?g)))"
    proof (cases "n_id n \<in> ?I")
      case True
      then show ?thesis by simp
    next
      case False
      from n have "n_id n \<in> n_id ` set (nodes ?g')" by (rule imageI)
      from link [OF this False] show ?thesis by simp
    qed
  qed
  show "connected (mindMap (handleApplyChanges p s))" if conn: "connected (mindMap s)"
  proof -
    have sub: "links ?g \<subseteq> links ?g'"
      by (rule links_mono) (simp add: edges_applyChanges set_fold_addEdge_mono)
    have anchor: "\<exists>c\<in>?I. (k, c) \<in> (links ?g')\<^sup>*" if k: "k \<in> n_id ` set (nodes ?g')" for k
    proof (cases "k \<in> ?I")
      case True
      then show ?thesis by blast
    next
      case False
      from link [OF k False] obtain e where e: "e \<in> set (edges ?g')"
        "Some (e_source e) = k \<and> Some (e_target e) \<in> ?I \<or>
         Some (e_target e) = k \<and> Some (e_source e) \<in> ?I" by blast
      from e(2) show ?thesis
      proof
        assume "Some (e_source e) = k \<and> Some (e_target e) \<in> ?I"
        moreover from this e(1) have "(k, Some (e_target e)) \<in> links ?g'"
          by (auto simp: links_def)
        ultimately show ?thesis by blast
      next
        assume "Some (e_target e) = k \<and> Some (e_source e) \<in> ?I"
        moreover from this e(1) have "(k, Some (e_source e)) \<in> links ?g'"
          by (auto simp: links_def)
        ultimately show ?thesis by blast
      qed
    qed
    show ?thesis
      unfolding connected_def mindMap_handleApplyChanges
    proof (intro ballI)
      fix a b
      assume "a \<in> set (map n_id (nodes ?g'))" and "b \<in> set (map n_id (nodes ?g'))"
      then have "a \<in> n_id ` set (nodes ?g')" and "b \<in> n_id ` set (nodes ?g')" by simp_all
      from anchor [OF this(1)] anchor [OF this(2)]
      obtain c d where c: "c \<in> ?I" "(a, c) \<in> (links ?g')\<^sup>*"
        and d: "d \<in> ?I" "(b, d) \<in> (links ?g')\<^sup>*" by blast
      from conn c(1) d(1) have "(c, d) \<in> (links ?g)\<^sup>*" by (auto simp: connected_def)
      with sub have "(c, d) \<in> (links ?g')\<^sup>*" using rtrancl_mono by blast
      with c(2) have "(a, d) \<in> (links ?g')\<^sup>*" by (rule rtrancl_trans)
      then show "(a, b) \<in> (links ?g')\<^sup>*" using links_rev [OF d(2)] by (rule rtrancl_trans)
    qed
  qed
qed

text \<open>
  The seed graph merge of the specification satisfies all of the conditions: \<^verbatim>\<open>gym\<close> comes
  with the new edge \<^verbatim>\<open>e3\<close> from \<^verbatim>\<open>health\<close>.
\<close>

theorem C1_no_dangling_witness:
  "no_dangling (mindMap initial_App) \<and> connected (mindMap initial_App) \<and>
   or_empty (nodesToAdd seed_merge) = [gym] \<and>
   or_empty (edgesToAdd seed_merge) = [gym_edge] \<and>
   Some (e_source gym_edge) \<in> set (map n_id (nodes (mindMap initial_App))) \<and>
   Some (e_target gym_edge) = n_id gym \<and>
   e_id gym_edge \<notin> set (map e_id (edges (mindMap initial_App))) \<and>
   no_dangling (mindMap (handleApplyChanges seed_merge initial_App)) \<and>
   new_nodes_linked (mindMap initial_App) (mindMap (handleApplyChanges seed_merge initial_App)) \<and>
   connected (mindMap (handleApplyChanges seed_merge initial_App))"
proof -
  have h1: "no_dangling (mindMap initial_App)"
    by (simp add: initial_App_def INITIAL_DATA_def no_dangling_def)
  have h4: "or_empty (nodesToAdd seed_merge) = [gym]"
    "or_empty (edgesToAdd seed_merge) = [gym_edge]"
    by (simp_all add: seed_merge_def or_empty_def)
  have h5: "Some (e_source gym_edge) \<in> set (map n_id (nodes (mindMap initial_App)))"
    "Some (e_target gym_edge) = n_id gym"
    "e_id gym_edge \<notin> set (map e_id (edges (mindMap initial_App)))"
    by (simp_all add: gym_edge_def gym_def initial_App_def INITIAL_DATA_def)
  have h2: "\<forall>e\<in>set (or_empty (edgesToAdd seed_merge)).
      Some (e_source e) \<in>
        n_id ` (set (nodes (mindMap initial_App)) \<union> set (or_empty (nodesToAdd seed_merge))) \<and>
      Some (e_target e) \<in>
        n_id ` (set (nodes (mindMap initial_App)) \<union> set (or_empty (nodesToAdd seed_merge)))"
    using h5 by (simp add: h4 image_Un)
  have h6: "distinct (map e_id (or_empty (edgesToAdd seed_merge))) \<and>
      e_id ` set (or_empty (edgesToAdd seed_merge)) \<inter>
        e_id ` set (edges (mindMap initial_App)) = {} \<and>
      (\<forall>a\<in>set (or_empty (nodesToAdd seed_merge)).
         n_id a \<notin> n_id ` set (nodes (mindMap initial_App)) \<longrightarrow>
         (\<exists>e\<in>set (or_empty (edgesToAdd seed_merge)).
            Some (e_source e) = n_id a \<and>
              Some (e_target e) \<in> n_id ` set (nodes (mindMap initial_App)) \<or>
            Some (e_target e) = n_id a \<and>
              Some (e_source e) \<in> n_id ` set (nodes (mindMap initial_App))))"
    using h5 by (simp add: h4)
  have h7: "connected (mindMap initial_App)"
    by (simp add: initial_App_def connected_INITIAL_DATA)
  from C1_no_dangling_when_endpoints_known [OF h1 h2] h6 h7 h1 h4 h5 show ?thesis by blast
qed

subsection \<open>C2: applying a proposal twice\<close>

text \<open>
  C2: applying the same proposal twice in immediate succession gives exactly the nodes and
  edges of applying it once. Every id of \<^verbatim>\<open>nodesToAdd\<close> and \<^verbatim>\<open>edgesToAdd\<close> is present
  after the first pass, and a list of updates run twice leaves each node as one run does.
\<close>

theorem C2_handleApplyChanges_idempotent:
  "handleApplyChanges p (handleApplyChanges p s) = handleApplyChanges p s"
  by (simp add: handleApplyChanges_def setMindMap_def applyChanges_twice)

subsection \<open>C3: the task list after a task edit\<close>

text \<open>
  C3 as stated: after \<open>updateTaskInMindMap\<close> the task list holds the edited task's new
  values. \<open>updateTaskInMindMap\<close> calls \<^verbatim>\<open>setMindMap\<close> only: with \<open>work_task\<close> in the list,
  ticking it off leaves the list holding the unticked task.
\<close>

theorem C3_task_list_counterexample:
  "tasks (updateTaskInMindMap (work_task\<lparr>t_completed := True\<rparr>) App_with_task) = [work_task] \<and>
   work_task\<lparr>t_completed := True\<rparr> \<notin>
     set (tasks (updateTaskInMindMap (work_task\<lparr>t_completed := True\<rparr>) App_with_task))"
  by (simp add: updateTaskInMindMap_def setMindMap_def App_with_task_def work_task_def)

text \<open>
  C3, amended: \<open>updateTaskInMindMap\<close> itself leaves the task list exactly as it was. The
  edit is written onto the graph only: every node whose id is the task's \<^verbatim>\<open>nodeId\<close> gets
  label = title, date = dueDate, reminderDate = reminderDate, priority = urgency and
  isCompleted = completed; every other node, the edges and the other state cells stay as
  they were.
\<close>

theorem C3_task_edit_frame:
  "tasks (updateTaskInMindMap t s) = tasks s \<and>
   isSyncingTasks (updateTaskInMindMap t s) = isSyncingTasks s \<and>
   isChatCollapsed (updateTaskInMindMap t s) = isChatCollapsed s \<and>
   isTaskWidgetVisible (updateTaskInMindMap t s) = isTaskWidgetVisible s \<and>
   edges (mindMap (updateTaskInMindMap t s)) = edges (mindMap s) \<and>
   length (nodes (mindMap (updateTaskInMindMap t s))) = length (nodes (mindMap s)) \<and>
   (\<forall>i<length (nodes (mindMap s)).
      nodes (mindMap (updateTaskInMindMap t s)) ! i =
        (if n_id (nodes (mindMap s) ! i) = Some (t_nodeId t)
         then (nodes (mindMap s) ! i)\<lparr>n_label := t_title t, n_date := t_dueDate t,
                n_reminderDate := t_reminderDate t, n_priority := Some (t_urgency t),
                n_isCompleted := Some (t_completed t)\<rparr>
         else nodes (mindMap s) ! i))"
  by (simp add: updateTaskInMindMap_def setMindMap_def)

text \<open>
  Ticking \<open>work_task\<close> off: the task list still holds the unticked task, the node
  \<^verbatim>\<open>work\<close> is completed, the node \<^verbatim>\<open>me\<close> and the edges are as in the seed graph.
\<close>

theorem C3_task_edit_frame_witness:
  "tasks App_with_task = [work_task] \<and>
   tasks (updateTaskInMindMap (work_task\<lparr>t_completed := True\<rparr>) App_with_task) = [work_task] \<and>
   edges (mindMap (updateTaskInMindMap (work_task\<lparr>t_completed := True\<rparr>) App_with_task)) =
     edges INITIAL_DATA \<and>
   nodes (mindMap (updateTaskInMindMap (work_task\<lparr>t_completed := True\<rparr>) App_with_task)) ! 0 =
     nodes INITIAL_DATA ! 0 \<and>
   nodes (mindMap (updateTaskInMindMap (work_task\<lparr>t_completed := True\<rparr>) App_with_task)) ! 1 =
     (nodes INITIAL_DATA ! 1)\<lparr>n_label := ''Work'', n_date := None, n_reminderDate := None,
        n_priority := Some ''low'', n_isCompleted := Some True\<rparr>"
proof -
  let ?t = "work_task\<lparr>t_completed := True\<rparr>"
  note frame = C3_task_edit_frame [of ?t App_with_task]
  have g: "mindMap App_with_task = INITIAL_DATA" "tasks App_with_task = [work_task]"
    by (simp_all add: App_with_task_def initial_App_def)
  have len: "0 < length (nodes (mindMap App_with_task))" "1 < length (nodes (mindMap App_with_task))"
    by (simp_all add: g INITIAL_DATA_def)
  have ids: "n_id (nodes (mindMap App_with_task) ! 0) \<noteq> Some (t_nodeId ?t)"
    "n_id (nodes (mindMap App_with_task) ! 1) = Some (t_nodeId ?t)"
    by (simp_all add: g INITIAL_DATA_def work_task_def)
  from frame have all: "\<forall>i<length (nodes (mindMap App_with_task)).
      nodes (mindMap (updateTaskInMindMap ?t App_with_task)) ! i =
        (if n_id (nodes (mindMap App_with_task) ! i) = Some (t_nodeId ?t)
         then (nodes (mindMap App_with_task) ! i)\<lparr>n_label := t_title ?t, n_date := t_dueDate ?t,
                n_reminderDate := t_reminderDate ?t, n_priority := Some (t_urgency ?t),
                n_isCompleted := Some (t_completed ?t)\<rparr>
         else nodes (mindMap App_with_task) ! i)"
    by blast
  from all len(1) ids(1)
  have n0: "nodes (mindMap (updateTaskInMindMap ?t App_with_task)) ! 0 = nodes INITIAL_DATA ! 0"
    by (simp add: g)
  from all len(2) ids(2)
  have n1: "nodes (mindMap (updateTaskInMindMap ?t App_with_task)) ! 1 =
     (nodes INITIAL_DATA ! 1)\<lparr>n_label := ''Work'', n_date := None, n_reminderDate := None,
        n_priority := Some ''low'', n_isCompleted := Some True\<rparr>"
    by (simp add: g work_task_def)
  from frame g have t: "tasks (updateTaskInMindMap ?t App_with_task) = [work_task]"
    and e: "edges (mindMap (updateTaskInMindMap ?t App_with_task)) = edges INITIAL_DATA"
    by simp_all
  from g(2) t e n0 n1 show ?thesis by (intro conjI)
qed

subsection \<open>C4: malformed entries of a proposal\<close>

text \<open>
  C4 as stated: a malformed entry is rejected and the rest of the proposal is applied.
  Nothing in \<open>handleApplyChanges\<close> looks at the type, the priority or whether an id is
  there: \<open>sloppy_merge\<close> puts a node of type \<^verbatim>\<open>alien\<close>, a node without id and an edge
  without id into the seed graph.
\<close>

theorem C4_malformed_inserted_counterexample:
  "malformed_node ufo \<and> malformed_node nameless \<and> malformed_edge nameless_edge \<and>
   ufo \<in> set (nodes (mindMap (handleApplyChanges sloppy_merge initial_App))) \<and>
   nameless \<in> set (nodes (mindMap (handleApplyChanges sloppy_merge initial_App))) \<and>
   nameless_edge \<in> set (edges (mindMap (handleApplyChanges sloppy_merge initial_App)))"
  by (simp add: eval_defs sloppy_merge_def ufo_def nameless_def nameless_edge_def gym_def
      gym_edge_def malformed_node_def malformed_edge_def NodeType_ok_def Priority_ok_def)

text \<open>
  C4, amended: no entry is rejected for being malformed. An entry of \<^verbatim>\<open>nodesToAdd\<close>,
  well-formed or not, whose id is the id of no node of the graph, of no earlier entry of
  the list and of no entry of \<^verbatim>\<open>nodesToUpdate\<close> is a node of the result as it stands;
  an entry of \<^verbatim>\<open>edgesToAdd\<close> whose id is the id of no edge of the graph and of no earlier
  entry of the list is an edge of the result.
\<close>

theorem C4_fresh_entry_inserted:
  "(nodesToAdd p = Some (pre @ a # post) \<and> n_id a \<notin> n_id ` set (nodes (mindMap s)) \<and>
    n_id a \<notin> n_id ` set pre \<and> n_id a \<notin> p_id ` set (or_empty (nodesToUpdate p))
      \<longrightarrow> a \<in> set (nodes (mindMap (handleApplyChanges p s)))) \<and>
   (edgesToAdd p = Some (pre' @ e # post') \<and> e_id e \<notin> e_id ` set (edges (mindMap s)) \<and>
    e_id e \<notin> e_id ` set pre'
      \<longrightarrow> e \<in> set (edges (mindMap (handleApplyChanges p s))))"
proof (intro conjI impI)
  assume h: "nodesToAdd p = Some (pre @ a # post) \<and>
    n_id a \<notin> n_id ` set (nodes (mindMap s)) \<and>
    n_id a \<notin> n_id ` set pre \<and> n_id a \<notin> p_id ` set (or_empty (nodesToUpdate p))"
  then have "a \<in> set (fold addNode (pre @ a # post) (nodes (mindMap s)))"
    by (intro fold_addNode_inserts) simp_all
  with h show "a \<in> set (nodes (mindMap (handleApplyChanges p s)))"
    by (simp add: mindMap_handleApplyChanges nodes_applyChanges or_empty_def
        fold_updateNode_keeps del: fold_append fold_simps)
next
  assume h: "edgesToAdd p = Some (pre' @ e # post') \<and>
    e_id e \<notin> e_id ` set (edges (mindMap s)) \<and> e_id e \<notin> e_id ` set pre'"
  then have "e \<in> set (fold addEdge (pre' @ e # post') (edges (mindMap s)))"
    by (intro fold_addEdge_inserts) simp_all
  with h show "e \<in> set (edges (mindMap (handleApplyChanges p s)))"
    by (simp add: mindMap_handleApplyChanges edges_applyChanges or_empty_def
        del: fold_append fold_simps)
qed

text \<open>The malformed node \<open>ufo\<close> and the edge without id of \<open>sloppy_merge\<close> are such entries.\<close>

theorem C4_fresh_entry_inserted_witness:
  "malformed_node ufo \<and> malformed_edge nameless_edge \<and>
   nodesToAdd sloppy_merge = Some ([] @ ufo # [nameless, gym]) \<and>
   edgesToAdd sloppy_merge = Some ([] @ nameless_edge # [gym_edge]) \<and>
   ufo \<in> set (nodes (mindMap (handleApplyChanges sloppy_merge initial_App))) \<and>
   nameless_edge \<in> set (edges (mindMap (handleApplyChanges sloppy_merge initial_App)))"
proof -
  have n: "nodesToAdd sloppy_merge = Some ([] @ ufo # [nameless, gym]) \<and>
      n_id ufo \<notin> n_id ` set (nodes (mindMap initial_App)) \<and>
      n_id ufo \<notin> n_id ` set [] \<and>
      n_id ufo \<notin> p_id ` set (or_empty (nodesToUpdate sloppy_merge))"
    by (simp add: sloppy_merge_def ufo_def initial_App_def INITIAL_DATA_def or_empty_def)
  have e: "edgesToAdd sloppy_merge = Some ([] @ nameless_edge # [gym_edge]) \<and>
      e_id nameless_edge \<notin> e_id ` set (edges (mindMap initial_App)) \<and>
      e_id nameless_edge \<notin> e_id ` set []"
    by (simp add: sloppy_merge_def nameless_edge_def initial_App_def INITIAL_DATA_def)
  have m: "malformed_node ufo \<and> malformed_edge nameless_edge"
    by (simp add: ufo_def nameless_edge_def malformed_node_def malformed_edge_def
        NodeType_ok_def)
  from n e m
    C4_fresh_entry_inserted [of sloppy_merge "[]" ufo "[nameless, gym]" initial_App
      "[]" nameless_edge "[gym_edge]"]
  show ?thesis by blast
qed

subsection \<open>C5: task write-back\<close>

text \<open>
  C5: for a task whose \<^verbatim>\<open>nodeId\<close> is the id of a node of the graph, \<open>updateTaskInMindMap\<close>
  writes the task onto that node as label = title, date = dueDate, reminderDate =
  reminderDate, priority = urgency, isCompleted = completed, and leaves its other fields
  as they were. The node is given by its position \<open>i\<close>, so the statement holds for every
  node carrying that id.
\<close>

theorem C5_task_write_back:
  assumes "i < length (nodes (mindMap s))"
    and "n_id (nodes (mindMap s) ! i) = Some (t_nodeId t)"
  shows "let N = nodes (mindMap s) ! i; N' = nodes (mindMap (updateTaskInMindMap t s)) ! i
         in n_label N' = t_title t \<and> n_date N' = t_dueDate t \<and>
            n_reminderDate N' = t_reminderDate t \<and> n_priority N' = Some (t_urgency t) \<and>
            n_isCompleted N' = Some (t_completed t) \<and>
            n_id N' = n_id N \<and> n_type N' = n_type N \<and>
            n_description N' = n_description N \<and> n_icon N' = n_icon N \<and>
            n_details N' = n_details N \<and> n_x N' = n_x N \<and> n_y N' = n_y N"
  using assms by (simp add: updateTaskInMindMap_def setMindMap_def Let_def)

text \<open>
  The round trip of the specification: the node \<^verbatim>\<open>n1\<close> with label \<^verbatim>\<open>Old\<close> and priority
  \<^verbatim>\<open>low\<close>, the task with title \<^verbatim>\<open>New\<close>, urgency \<^verbatim>\<open>high\<close> and completed.
\<close>

theorem C5_task_write_back_witness:
  "0 < length (nodes (mindMap App_n1)) \<and>
   n_id (nodes (mindMap App_n1) ! 0) = Some (t_nodeId n1_task) \<and>
   n_label (nodes (mindMap (updateTaskInMindMap n1_task App_n1)) ! 0) = ''New'' \<and>
   n_priority (nodes (mindMap (updateTaskInMindMap n1_task App_n1)) ! 0) = Some ''high'' \<and>
   n_isCompleted (nodes (mindMap (updateTaskInMindMap n1_task App_n1)) ! 0) = Some True"
proof -
  have h1: "0 < length (nodes (mindMap App_n1))" by (simp add: App_n1_def)
  have h2: "n_id (nodes (mindMap App_n1) ! 0) = Some (t_nodeId n1_task)"
    by (simp add: App_n1_def n1_node_def n1_task_def)
  from C5_task_write_back [OF h1 h2]
  have "n_label (nodes (mindMap (updateTaskInMindMap n1_task App_n1)) ! 0) = t_title n1_task \<and>
    n_priority (nodes (mindMap (updateTaskInMindMap n1_task App_n1)) ! 0) =
      Some (t_urgency n1_task) \<and>
    n_isCompleted (nodes (mindMap (updateTaskInMindMap n1_task App_n1)) ! 0) =
      Some (t_completed n1_task)"
    by (simp add: Let_def)
  with h1 h2 show ?thesis by (simp add: n1_task_def)
qed

subsection \<open>C6: an update of an existing node\<close>

text \<open>
  C6: an update whose id is the id of a node is merged into that node, the first one with
  that id: each field that the update has takes the update's value, each field that it
  lacks stays as it was; no other node and no edge changes.
\<close>

theorem C6_update_shallow_merge:
  assumes "i < length (nodes (mindMap s))"
    and "n_id (nodes (mindMap s) ! i) = p_id u"
    and "\<forall>j<i. n_id (nodes (mindMap s) ! j) \<noteq> p_id u"
  shows "let N = nodes (mindMap s) ! i
         in mindMap (handleApplyChanges (only_update u) s) =
            \<lparr>nodes = (nodes (mindMap s))[i := \<lparr>
               n_id = n_id N,
               n_label = (case p_label u of None \<Rightarrow> n_label N | Some v \<Rightarrow> v),
               n_type = (case p_type u of None \<Rightarrow> n_type N | Some v \<Rightarrow> v),
               n_description =
                 (case p_description u of None \<Rightarrow> n_description N | Some v \<Rightarrow> v),
               n_icon = (case p_icon u of None \<Rightarrow> n_icon N | Some v \<Rightarrow> Some v),
               n_details = (case p_details u of None \<Rightarrow> n_details N | Some v \<Rightarrow> Some v),
               n_date = (case p_date u of None \<Rightarrow> n_date N | Some v \<Rightarrow> Some v),
               n_reminderDate =
                 (case p_reminderDate u of None \<Rightarrow> n_reminderDate N | Some v \<Rightarrow> Some v),
               n_isCompleted =
                 (case p_isCompleted u of None \<Rightarrow> n_isCompleted N | Some v \<Rightarrow> Some v),
               n_priority =
                 (case p_priority u of None \<Rightarrow> n_priority N | Some v \<Rightarrow> Some v),
               n_x = (case p_x u of None \<Rightarrow> n_x N | Some v \<Rightarrow> Some v),
               n_y = (case p_y u of None \<Rightarrow> n_y N | Some v \<Rightarrow> Some v)\<rparr>],
             edges = edges (mindMap s)\<rparr>"
proof -
  let ?xs = "nodes (mindMap s)"
  from assms have "updateNode u ?xs = ?xs[i := spread (?xs ! i) u]" by (rule updateNode_first)
  moreover from assms(2) have "spread_opt (n_id (?xs ! i)) (p_id u) = n_id (?xs ! i)"
    by (simp add: spread_opt_same)
  ultimately show ?thesis
    by (simp add: mindMap_handleApplyChanges applyChanges_only_update Let_def spread_def
        spread_req_def spread_opt_def)
qed

text \<open>
  The example of the specification: \<^verbatim>\<open>{id: X, label: L2}\<close> on the node with label \<^verbatim>\<open>L1\<close>,
  type \<^verbatim>\<open>concept\<close> and description \<^verbatim>\<open>D\<close>, here the fourth node of the store, after
  the three of the seed graph.
\<close>

theorem C6_update_shallow_merge_witness:
  "3 < length (nodes (mindMap App_X)) \<and>
   n_id (nodes (mindMap App_X) ! 3) = p_id (relabel ''X'' ''L2'') \<and>
   list_all (\<lambda>n. n_id n \<noteq> p_id (relabel ''X'' ''L2'')) (take 3 (nodes (mindMap App_X))) \<and>
   nodes (mindMap App_X) ! 3 =
     \<lparr>n_id = Some ''X'', n_label = ''L1'', n_type = ''concept'',
      n_description = ''D'', n_icon = None, n_details = None, n_date = None,
      n_reminderDate = None, n_isCompleted = None, n_priority = None,
      n_x = None, n_y = None\<rparr> \<and>
   mindMap (handleApplyChanges (only_update (relabel ''X'' ''L2'')) App_X) =
     \<lparr>nodes = nodes INITIAL_DATA @
        [\<lparr>n_id = Some ''X'', n_label = ''L2'', n_type = ''concept'',
          n_description = ''D'', n_icon = None, n_details = None, n_date = None,
          n_reminderDate = None, n_isCompleted = None, n_priority = None,
          n_x = None, n_y = None\<rparr>],
      edges = edges INITIAL_DATA\<rparr>"
proof -
  have h1: "3 < length (nodes (mindMap App_X))" by (simp add: App_X_def INITIAL_DATA_def)
  have h2: "n_id (nodes (mindMap App_X) ! 3) = p_id (relabel ''X'' ''L2'')"
    by (simp add: App_X_def INITIAL_DATA_def X_node_def relabel_def)
  have h3: "\<forall>j<3. n_id (nodes (mindMap App_X) ! j) \<noteq> p_id (relabel ''X'' ''L2'')"
    by (simp add: numeral_3_eq_3 All_less_Suc App_X_def INITIAL_DATA_def relabel_def)
  have h4: "list_all (\<lambda>n. n_id n \<noteq> p_id (relabel ''X'' ''L2''))
      (take 3 (nodes (mindMap App_X)))"
    by (simp add: App_X_def INITIAL_DATA_def relabel_def)
  have h5: "nodes (mindMap App_X) ! 3 =
     \<lparr>n_id = Some ''X'', n_label = ''L1'', n_type = ''concept'',
      n_description = ''D'', n_icon = None, n_details = None, n_date = None,
      n_reminderDate = None, n_isCompleted = None, n_priority = None,
      n_x = None, n_y = None\<rparr>"
    by (simp add: App_X_def INITIAL_DATA_def X_node_def)
  from C6_update_shallow_merge [OF h1 h2 h3]
  have "mindMap (handleApplyChanges (only_update (relabel ''X'' ''L2'')) App_X) =
     \<lparr>nodes = nodes INITIAL_DATA @
        [\<lparr>n_id = Some ''X'', n_label = ''L2'', n_type = ''concept'',
          n_description = ''D'', n_icon = None, n_details = None, n_date = None,
          n_reminderDate = None, n_isCompleted = None, n_priority = None,
          n_x = None, n_y = None\<rparr>],
      edges = edges INITIAL_DATA\<rparr>"
    by (simp add: Let_def App_X_def INITIAL_DATA_def X_node_def relabel_def no_props_def)
  with h1 h2 h4 h5 show ?thesis by blast
qed

subsection \<open>C7: an update of an unknown node\<close>

text \<open>
  C7: an update whose id is the id of no node of the store changes nothing: the update step
  returns the nodes as they are, and applying the proposal that carries just this update
  returns the state as it is.
\<close>

theorem C7_unknown_update_noop:
  assumes "\<forall>n\<in>set (nodes (mindMap s)). n_id n \<noteq> p_id u"
  shows "updateNode u (nodes (mindMap s)) = nodes (mindMap s) \<and>
         handleApplyChanges (only_update u) s = s"
proof -
  from assms have "updateNode u (nodes (mindMap s)) = nodes (mindMap s)"
    by (rule updateNode_unknown)
  then show ?thesis
    by (simp add: handleApplyChanges_def setMindMap_def applyChanges_only_update)
qed

text \<open>The example of the specification: \<^verbatim>\<open>{id: ghost, label: X}\<close> on the seed graph.\<close>

theorem C7_unknown_update_noop_witness:
  "list_all (\<lambda>n. n_id n \<noteq> p_id (relabel ''ghost'' ''X'')) (nodes (mindMap initial_App)) \<and>
   updateNode (relabel ''ghost'' ''X'') (nodes (mindMap initial_App)) =
     nodes (mindMap initial_App) \<and>
   handleApplyChanges (only_update (relabel ''ghost'' ''X'')) initial_App = initial_App"
proof -
  have h: "\<forall>n\<in>set (nodes (mindMap initial_App)). n_id n \<noteq> p_id (relabel ''ghost'' ''X'')"
    by (simp add: initial_App_def INITIAL_DATA_def relabel_def)
  then have "list_all (\<lambda>n. n_id n \<noteq> p_id (relabel ''ghost'' ''X''))
      (nodes (mindMap initial_App))"
    by (simp add: list_all_iff)
  with C7_unknown_update_noop [OF h] show ?thesis by blast
qed

subsection \<open>C8: adding a node whose id exists\<close>

text \<open>
  C8: an entry of \<^verbatim>\<open>nodesToAdd\<close> whose id is the id of a node of the store is ignored.
  For every proposal, applying it gives the state that the same proposal without that
  entry gives, so the entry alters no field of any node; the node is not inserted, the
  store has as many nodes with that id afterwards as before; and unless an entry of
  \<^verbatim>\<open>nodesToUpdate\<close> carries that id, the nodes with that id are after the proposal
  exactly the ones before it, every field unchanged.
\<close>

theorem C8_readd_ignored:
  assumes "nodesToAdd p = Some (pre @ a # post)"
    and "n_id a \<in> n_id ` set (nodes (mindMap s))"
  shows "handleApplyChanges p s = handleApplyChanges (p\<lparr>nodesToAdd := Some (pre @ post)\<rparr>) s \<and>
         length (filter (\<lambda>n. n_id n = n_id a) (nodes (mindMap (handleApplyChanges p s)))) =
         length (filter (\<lambda>n. n_id n = n_id a) (nodes (mindMap s))) \<and>
         (n_id a \<notin> p_id ` set (or_empty (nodesToUpdate p)) \<longrightarrow>
          filter (\<lambda>n. n_id n = n_id a) (nodes (mindMap (handleApplyChanges p s))) =
          filter (\<lambda>n. n_id n = n_id a) (nodes (mindMap s)))"
proof (intro conjI impI)
  from assms show "handleApplyChanges p s =
      handleApplyChanges (p\<lparr>nodesToAdd := Some (pre @ post)\<rparr>) s"
    by (simp add: handleApplyChanges_def setMindMap_def applyChanges_skip)
next
  from assms(2)
  show "length (filter (\<lambda>n. n_id n = n_id a) (nodes (mindMap (handleApplyChanges p s)))) =
        length (filter (\<lambda>n. n_id n = n_id a) (nodes (mindMap s)))"
    by (simp add: mindMap_handleApplyChanges count_ids_applyChanges)
next
  assume "n_id a \<notin> p_id ` set (or_empty (nodesToUpdate p))"
  then have "filter (\<lambda>n. n_id n = n_id a) (nodes (mindMap (handleApplyChanges p s))) =
        filter (\<lambda>n. n_id n = n_id a)
          (fold addNode (or_empty (nodesToAdd p)) (nodes (mindMap s)))"
    by (simp add: mindMap_handleApplyChanges nodes_applyChanges filter_fold_updateNode)
  also have "\<dots> = filter (\<lambda>n. n_id n = n_id a) (nodes (mindMap s))"
    using assms(2) by (rule filter_fold_addNode)
  finally show "filter (\<lambda>n. n_id n = n_id a) (nodes (mindMap (handleApplyChanges p s))) =
          filter (\<lambda>n. n_id n = n_id a) (nodes (mindMap s))" .
qed

text \<open>
  On the seed graph: adding \<^verbatim>\<open>work\<close> again, with other fields, leaves the whole state as
  it is; adding it again next to an update of \<^verbatim>\<open>work\<close> gives what the update alone gives.
\<close>

theorem C8_readd_ignored_witness:
  "nodesToAdd readd_work = Some ([] @ work_again # []) \<and>
   nodesToAdd readd_and_relabel_work = Some ([] @ work_again # []) \<and>
   n_id work_again \<in> n_id ` set (nodes (mindMap initial_App)) \<and>
   handleApplyChanges readd_work initial_App = initial_App \<and>
   handleApplyChanges readd_and_relabel_work initial_App =
     handleApplyChanges (only_update (relabel ''work'' ''Job'')) initial_App \<and>
   length (filter (\<lambda>n. n_id n = Some ''work'')
     (nodes (mindMap (handleApplyChanges readd_and_relabel_work initial_App)))) = 1"
proof -
  have h1: "nodesToAdd readd_work = Some ([] @ work_again # [])"
    by (simp add: readd_work_def)
  have h1': "nodesToAdd readd_and_relabel_work = Some ([] @ work_again # [])"
    by (simp add: readd_and_relabel_work_def)
  have h2: "n_id work_again \<in> n_id ` set (nodes (mindMap initial_App))"
    by (simp add: work_again_def initial_App_def INITIAL_DATA_def)
  have e1: "handleApplyChanges (readd_work\<lparr>nodesToAdd := Some ([] @ [])\<rparr>) initial_App =
      initial_App"
    by (simp add: handleApplyChanges_def setMindMap_def applyChanges_def or_empty_def
        readd_work_def initial_App_def)
  have e2: "handleApplyChanges (readd_and_relabel_work\<lparr>nodesToAdd := Some ([] @ [])\<rparr>)
      initial_App = handleApplyChanges (only_update (relabel ''work'' ''Job'')) initial_App"
    by (simp add: handleApplyChanges_def setMindMap_def applyChanges_def or_empty_def
        readd_and_relabel_work_def only_update_def)
  have e3: "length (filter (\<lambda>n. n_id n = n_id work_again) (nodes (mindMap initial_App))) = 1"
    by (simp add: work_again_def initial_App_def INITIAL_DATA_def)
  have e4: "n_id work_again = Some ''work''" by (simp add: work_again_def)
  have r1: "handleApplyChanges readd_work initial_App = initial_App"
    using C8_readd_ignored [OF h1 h2, THEN conjunct1] e1 by (rule trans)
  have r2: "handleApplyChanges readd_and_relabel_work initial_App =
      handleApplyChanges (only_update (relabel ''work'' ''Job'')) initial_App"
    using C8_readd_ignored [OF h1' h2, THEN conjunct1] e2 by (rule trans)
  have r3: "length (filter (\<lambda>n. n_id n = n_id work_again)
      (nodes (mindMap (handleApplyChanges readd_and_relabel_work initial_App)))) = 1"
    using C8_readd_ignored [OF h1' h2, THEN conjunct2, THEN conjunct1] e3 by (rule trans)
  from r3 have r4: "length (filter (\<lambda>n. n_id n = Some ''work'')
      (nodes (mindMap (handleApplyChanges readd_and_relabel_work initial_App)))) = 1"
    by (simp only: e4)
  from h1 h1' h2 r1 r2 r4 show ?thesis by (intro conjI)
qed

subsection \<open>C9: no duplicate ids\<close>

text \<open>
  C9: from a store whose node ids are distinct and whose edge ids are distinct, every
  sequence of proposals leaves the node ids distinct and the edge ids distinct, whatever
  ids the lists of a proposal repeat. A single addition is the proposal with that one
  entry; a missing id counts as one id.
\<close>

theorem C9_no_duplicate_ids:
  assumes "distinct (map n_id (nodes (mindMap s)))"
    and "distinct (map e_id (edges (mindMap s)))"
  shows "distinct (map n_id (nodes (mindMap (fold handleApplyChanges ps s)))) \<and>
         distinct (map e_id (edges (mindMap (fold handleApplyChanges ps s))))"
  using assms
proof (induction ps arbitrary: s)
  case Nil
  then show ?case by simp
next
  case (Cons p ps)
  have "distinct (map n_id (nodes (mindMap (handleApplyChanges p s))))"
    and "distinct (map e_id (edges (mindMap (handleApplyChanges p s))))"
    using Cons.prems by (simp_all add: mindMap_handleApplyChanges distinct_applyChanges)
  then show ?case using Cons.IH [of "handleApplyChanges p s"] by simp
qed

text \<open>
  On the seed graph, with \<open>replay_merge\<close>, whose lists repeat the ids \<^verbatim>\<open>gym\<close> and \<^verbatim>\<open>e3\<close>
  and bring \<^verbatim>\<open>work\<close> and \<^verbatim>\<open>e1\<close> again, applied before and after the seed merge.
\<close>

theorem C9_no_duplicate_ids_witness:
  "distinct (map n_id (nodes (mindMap initial_App))) \<and>
   distinct (map e_id (edges (mindMap initial_App))) \<and>
   distinct (map n_id (nodes (mindMap
     (fold handleApplyChanges [replay_merge, seed_merge, replay_merge] initial_App)))) \<and>
   distinct (map e_id (edges (mindMap
     (fold handleApplyChanges [replay_merge, seed_merge, replay_merge] initial_App))))"
proof -
  have h1: "distinct (map n_id (nodes (mindMap initial_App)))"
    by (simp add: initial_App_def INITIAL_DATA_def)
  have h2: "distinct (map e_id (edges (mindMap initial_App)))"
    by (simp add: initial_App_def INITIAL_DATA_def)
  from h1 h2 C9_no_duplicate_ids [OF h1 h2, of "[replay_merge, seed_merge, replay_merge]"]
  show ?thesis by blast
qed

subsection \<open>C10: a task edit for an unknown node\<close>

text \<open>
  C10: for a task whose \<^verbatim>\<open>nodeId\<close> is the id of no node, \<open>updateTaskInMindMap\<close> leaves the
  graph as it is: every node with all its fields, and the edges.
\<close>

theorem C10_unknown_task_noop:
  assumes "\<forall>n\<in>set (nodes (mindMap s)). n_id n \<noteq> Some (t_nodeId t)"
  shows "mindMap (updateTaskInMindMap t s) = mindMap s"
proof -
  from assms have "map (\<lambda>node. if n_id node = Some (t_nodeId t)
      then node\<lparr>n_label := t_title t, n_date := t_dueDate t,
        n_reminderDate := t_reminderDate t, n_priority := Some (t_urgency t),
        n_isCompleted := Some (t_completed t)\<rparr>
      else node) (nodes (mindMap s)) = nodes (mindMap s)"
    by (induction "nodes (mindMap s)") (simp_all add: map_idI)
  then show ?thesis by (simp add: updateTaskInMindMap_def setMindMap_def)
qed

text \<open>A task for the node \<^verbatim>\<open>ghost\<close>, which the seed graph does not have.\<close>

theorem C10_unknown_task_noop_witness:
  "list_all (\<lambda>n. n_id n \<noteq> Some (t_nodeId ghost_task)) (nodes (mindMap initial_App)) \<and>
   mindMap (updateTaskInMindMap ghost_task initial_App) = mindMap initial_App"
proof -
  have h: "\<forall>n\<in>set (nodes (mindMap initial_App)). n_id n \<noteq> Some (t_nodeId ghost_task)"
    by (simp add: initial_App_def INITIAL_DATA_def ghost_task_def)
  then have "list_all (\<lambda>n. n_id n \<noteq> Some (t_nodeId ghost_task))
      (nodes (mindMap initial_App))"
    by (simp add: list_all_iff)
  with C10_unknown_task_noop [OF h] show ?thesis by blast
qed

end
